theory Spec2Isabelle
  imports Main "HOL-Library.Sublist"
begin

section \<open>Strings and paths\<close>

text \<open>
  Go strings are byte sequences; they are modelled as \<open>string\<close> (a list of 8-bit
  characters). The functions of this section are the ones the program calls from the
  packages \<^verbatim>\<open>strings\<close>, \<^verbatim>\<open>path/filepath\<close> and \<^verbatim>\<open>fmt\<close>, on a system whose path separator
  is the slash. \<open>ToLower\<close> is the byte loop \<^verbatim>\<open>strings.ToLower\<close> runs on a string without
  bytes above 127: a byte from \<^verbatim>\<open>'A'\<close> to \<^verbatim>\<open>'Z'\<close> is moved by \<^verbatim>\<open>'a' - 'A'\<close>; other bytes are
  kept.
\<close>

type_synonym path = string

definition lower_byte :: "char \<Rightarrow> char" where
  "lower_byte c =
     (let n = (of_char c :: nat) in if 65 \<le> n \<and> n \<le> 90 then char_of (n + 32) else c)"

definition ToLower :: "string \<Rightarrow> string" where
  "ToLower s = map lower_byte s"

text \<open>
  \<^verbatim>\<open>filepath.Ext\<close> scans the path from its last byte towards the front, stops with the
  empty string at a separator, and returns the suffix that starts at the first dot it
  meets. \<open>Ext_scan\<close> is that loop on the reversed path; its second argument is the part
  of the path already passed.
\<close>

fun Ext_scan :: "string \<Rightarrow> string \<Rightarrow> string" where
  "Ext_scan [] passed = []"
| "Ext_scan (c # cs) passed =
     (if c = CHR ''/'' then []
      else if c = CHR ''.'' then c # passed
      else Ext_scan cs (c # passed))"

definition Ext :: "path \<Rightarrow> string" where
  "Ext p = Ext_scan (rev p) []"

definition HasPrefix :: "string \<Rightarrow> string \<Rightarrow> bool" where
  "HasPrefix s pre = prefix pre s"

definition TrimSuffix :: "string \<Rightarrow> string \<Rightarrow> string" where
  "TrimSuffix s suf = (if suffix suf s then take (length s - length suf) s else s)"

text \<open>\<^verbatim>\<open>strings.Split\<close> for a separator of one byte.\<close>

fun Split_from :: "char \<Rightarrow> string \<Rightarrow> string \<Rightarrow> string list" where
  "Split_from sep cur [] = [cur]"
| "Split_from sep cur (c # cs) =
     (if c = sep then cur # Split_from sep [] cs else Split_from sep (cur @ [c]) cs)"

definition Split :: "string \<Rightarrow> char \<Rightarrow> string list" where
  "Split s sep = Split_from sep [] s"

text \<open>
  \<^verbatim>\<open>filepath.Base\<close>: the last element of the path, after trailing separators are dropped.
\<close>

definition Base :: "path \<Rightarrow> string" where
  "Base p =
     (if p = [] then ''.''
      else (let q = dropWhile (\<lambda>c. c = CHR ''/'') (rev p);
                r = rev (takeWhile (\<lambda>c. c \<noteq> CHR ''/'') q)
            in if r = [] then ''/'' else r))"

text \<open>
  \<^verbatim>\<open>filepath.Join\<close> as the directory walk uses it: a cleaned directory path and the name
  of one of its entries. Only the root directory's path ends with a separator.
\<close>

definition Join :: "path \<Rightarrow> string \<Rightarrow> path" where
  "Join dir name = (if dir = ''/'' then dir @ name else dir @ ''/'' @ name)"

text \<open>The verb \<^verbatim>\<open>%d\<close> of \<^verbatim>\<open>fmt.Sprintf\<close> on an index, which is never negative.\<close>

definition digit :: "nat \<Rightarrow> char" where
  "digit d = char_of (48 + d)"

fun itoa :: "nat \<Rightarrow> string" where
  "itoa n = (if n < 10 then [digit n] else itoa (n div 10) @ [digit (n mod 10)])"

declare itoa.simps [simp del]

section \<open>The allow-list of video extensions\<close>

definition videoExtensions :: string where
  "videoExtensions = ''.mp4,.mkv,.avi,.mov,.wmv,.flv,.webm,.m4v''"

text \<open>
  \<open>extMap\<close> is the map \<^verbatim>\<open>findVideoFiles\<close> builds before it walks; reading a key a Go map
  does not hold gives \<^verbatim>\<open>false\<close>.
\<close>

definition extMap :: "string \<rightharpoonup> bool" where
  "extMap = fold (\<lambda>ext m. m(ToLower ext \<mapsto> True)) (Split videoExtensions CHR '','') Map.empty"

definition extMap_lookup :: "string \<Rightarrow> bool" where
  "extMap_lookup ext = (case extMap ext of Some b \<Rightarrow> b | None \<Rightarrow> False)"

section \<open>File discovery\<close>

text \<open>
  A directory tree as \<^verbatim>\<open>filepath.Walk\<close> sees it. \<^verbatim>\<open>Walk\<close> reads each entry with
  \<^verbatim>\<open>os.Lstat\<close>, so it does not follow a symbolic link: a link is an entry that is not a
  directory, like a regular file, a device or a named pipe. A directory lists its
  entries in the order \<^verbatim>\<open>Walk\<close> visits them (sorted by name). Reading a directory can
  fail, and so can \<^verbatim>\<open>Lstat\<close> on an entry; both carry the error's text.
\<close>

datatype kind = Regular | Symlink | Irregular

datatype node =
    NonDir kind
  | Dir "(string \<times> node) list"
  | DirUnreadable string
  | NoStat string

text \<open>
  The callback \<^verbatim>\<open>findVideoFiles\<close> passes to \<^verbatim>\<open>Walk\<close>. It receives the path, whether the
  entry is a directory (\<^verbatim>\<open>info.IsDir()\<close>, read only when there is no error) and the error
  of the walk, and appends to \<^verbatim>\<open>videoFiles\<close>. It returns the new slice and its own error.
\<close>

definition walkFn :: "path \<Rightarrow> bool \<Rightarrow> string option \<Rightarrow> path list \<Rightarrow> path list \<times> string option" where
  "walkFn p isDir err videoFiles =
     (case err of
        Some e \<Rightarrow> (videoFiles, Some e)
      | None \<Rightarrow>
          if isDir then (videoFiles, None)
          else (let ext = ToLower (Ext p)
                in if extMap_lookup ext then (videoFiles @ [p], None)
                   else (videoFiles, None)))"

text \<open>
  \<^verbatim>\<open>walk\<close> of \<^verbatim>\<open>path/filepath\<close>, with the callback above. The callback never returns
  \<^verbatim>\<open>SkipDir\<close> or \<^verbatim>\<open>SkipAll\<close>, so every error it returns ends the walk. \<open>walk_names\<close> is the
  loop over the names of a directory.
\<close>

fun walk :: "path \<Rightarrow> node \<Rightarrow> path list \<Rightarrow> path list \<times> string option"
  and walk_names :: "path \<Rightarrow> (string \<times> node) list \<Rightarrow> path list \<Rightarrow> path list \<times> string option"
where
  "walk p (NonDir k) vs = walkFn p False None vs"
| "walk p (Dir entries) vs =
     (case walkFn p True None vs of
        (vs', Some e) \<Rightarrow> (vs', Some e)
      | (vs', None) \<Rightarrow> walk_names p entries vs')"
| "walk p (DirUnreadable e) vs = walkFn p True (Some e) vs"
| "walk p (NoStat e) vs = walkFn p False (Some e) vs"
| "walk_names p [] vs = (vs, None)"
| "walk_names p ((name, t) # rest) vs =
     (case walk (Join p name) t vs of
        (vs', Some e) \<Rightarrow> (vs', Some e)
      | (vs', None) \<Rightarrow> walk_names p rest vs')"

definition findVideoFiles :: "path \<Rightarrow> node \<Rightarrow> path list \<times> string option" where
  "findVideoFiles dir t = walk dir t []"


fun regular_paths :: "path \<Rightarrow> node \<Rightarrow> path list"
  and regular_paths_names :: "path \<Rightarrow> (string \<times> node) list \<Rightarrow> path list"
where
  "regular_paths p (NonDir k) = (if k = Regular then [p] else [])"
| "regular_paths p (Dir entries) = regular_paths_names p entries"
| "regular_paths p (DirUnreadable e) = []"
| "regular_paths p (NoStat e) = []"
| "regular_paths_names p [] = []"
| "regular_paths_names p ((name, t) # rest) =
     regular_paths (Join p name) t @ regular_paths_names p rest"



section \<open>The file system and the external tools\<close>

text \<open>
  The files \<^verbatim>\<open>stripMetadata\<close> touches: a store from paths to contents. The calls
  \<^verbatim>\<open>os.Stat\<close>, \<^verbatim>\<open>os.Remove\<close> and \<^verbatim>\<open>os.Rename\<close> return an error or none. Besides the error
  for a missing file, each can fail for a reason of the system's (permissions, a
  read-only volume); \<open>faults\<close> says for which path each call fails so, and with which
  text.
\<close>

type_synonym fs = "path \<rightharpoonup> string"

datatype os_error = NotExist | OtherError string

record faults =
  stat_fault :: "path \<Rightarrow> string option"
  remove_fault :: "path \<Rightarrow> string option"
  rename_fault :: "path \<Rightarrow> string option"

definition os_Stat :: "faults \<Rightarrow> fs \<Rightarrow> path \<Rightarrow> os_error option" where
  "os_Stat flt files p =
     (case stat_fault flt p of
        Some e \<Rightarrow> Some (OtherError e)
      | None \<Rightarrow> (case files p of None \<Rightarrow> Some NotExist | Some c \<Rightarrow> None))"

definition os_IsNotExist :: "os_error option \<Rightarrow> bool" where
  "os_IsNotExist err = (err = Some NotExist)"

definition os_Remove :: "faults \<Rightarrow> fs \<Rightarrow> path \<Rightarrow> os_error option \<times> fs" where
  "os_Remove flt files p =
     (case remove_fault flt p of
        Some e \<Rightarrow> (Some (OtherError e), files)
      | None \<Rightarrow>
          (case files p of
             None \<Rightarrow> (Some NotExist, files)
           | Some c \<Rightarrow> (None, files(p := None))))"

definition os_Rename :: "faults \<Rightarrow> fs \<Rightarrow> path \<Rightarrow> path \<Rightarrow> os_error option \<times> fs" where
  "os_Rename flt files old new =
     (case rename_fault flt old of
        Some e \<Rightarrow> (Some (OtherError e), files)
      | None \<Rightarrow>
          (case files old of
             None \<Rightarrow> (Some NotExist, files)
           | Some c \<Rightarrow> (None, (files(old := None))(new \<mapsto> c))))"

text \<open>
  One run of the transcoding tool, started with an input path and an output path on a
  file store: the error \<^verbatim>\<open>cmd.Run\<close> returns (a non-zero exit, or the process killed when
  the context is cancelled) and what the tool wrote to its output path, if it wrote. The
  tool writes to no other path.
\<close>

record ffmpeg_outcome =
  run_err :: "string option"
  written :: "string option"

type_synonym ffmpeg_tool = "path \<Rightarrow> path \<Rightarrow> fs \<Rightarrow> ffmpeg_outcome"

definition ffmpeg_effect :: "ffmpeg_outcome \<Rightarrow> path \<Rightarrow> fs \<Rightarrow> fs" where
  "ffmpeg_effect out target files =
     (case written out of None \<Rightarrow> files | Some c \<Rightarrow> files(target \<mapsto> c))"

section \<open>Errors, commands and log lines\<close>

text \<open>
  Each error the program builds with \<^verbatim>\<open>fmt.Errorf\<close> is a constructor; a wrapped error
  (\<^verbatim>\<open>%w\<close>) is its argument. Each call of \<^verbatim>\<open>log\<close> is a constructor of \<open>message\<close> with the
  values it formats. An \<open>event\<close> is a command the program runs or a line it logs.
\<close>

datatype strip_error =
    FfmpegFailed string
  | TmpNotCreated
  | ReplaceFailed os_error

datatype check_error =
    FfmpegNotFound
  | NoHomebrew
  | InstallTimedOut
  | InstallFailed string
  | NotOnPath

datatype command =
    FfmpegVersion
  | BrewVersion
  | BrewInstallFfmpeg
  | FfmpegStrip path path

datatype message =
    MsgTryInstall
  | MsgBrewFound
  | MsgMayTakeMinutes
  | MsgInstalled
  | MsgRemoveFailed path os_error
  | MsgScanning path
  | MsgNoVideos
  | MsgFoundCount nat
  | MsgProcessing nat nat string
  | MsgFileError path strip_error
  | MsgDone nat nat string
  | MsgFinished
  | MsgMetadataFound
  | MsgItem string
  | MsgStripping
  | MsgNoMetadata
  | MsgRemaining
  | MsgRemoved

datatype event = Exec command | ExecWithin nat command | Log message

text \<open>
  The shell commands each error's message quotes for the user, as the message has them.
\<close>

fun quoted_commands :: "check_error \<Rightarrow> string list" where
  "quoted_commands FfmpegNotFound = [''brew install ffmpeg'']"
| "quoted_commands NoHomebrew =
     [''/bin/bash -c '' @ [CHR 0x22] @
        ''$(curl -fsSL https://raw.githubusercontent.com/Homebrew/install/HEAD/install.sh)'' @
        [CHR 0x22],
      ''brew install ffmpeg'']"
| "quoted_commands InstallTimedOut = [''brew install ffmpeg'']"
| "quoted_commands (InstallFailed e) = [''brew install ffmpeg'']"
| "quoted_commands NotOnPath =
     [''export PATH='' @ [CHR 0x22] @ ''/opt/homebrew/bin:$PATH'' @ [CHR 0x22]]"

section \<open>The strip-and-replace operation\<close>

text \<open>
  \<^verbatim>\<open>stripMetadata\<close> is the same function in both programs. \<open>tmpFile\<close> is the temporary
  path its first three lines derive. \<open>stripMetadata_body\<close> is the function up to its
  \<^verbatim>\<open>return\<close>; \<open>cleanup\<close> is the deferred function, which runs after the result is set and
  cannot change it.
\<close>

definition tmpFile :: "path \<Rightarrow> path" where
  "tmpFile inputFile =
     (let ext = Ext inputFile;
          baseName = TrimSuffix inputFile ext
      in baseName @ ''.tmp'' @ ext)"

definition stripMetadata_body ::
  "faults \<Rightarrow> ffmpeg_tool \<Rightarrow> path \<Rightarrow> path \<Rightarrow> fs \<Rightarrow> strip_error option \<times> fs" where
  "stripMetadata_body flt tool inputFile tmp files =
     (let out = tool inputFile tmp files;
          files1 = ffmpeg_effect out tmp files
      in case run_err out of
           Some e \<Rightarrow> (Some (FfmpegFailed e), files1)
         | None \<Rightarrow>
             if os_IsNotExist (os_Stat flt files1 tmp) then (Some TmpNotCreated, files1)
             else (case os_Rename flt files1 tmp inputFile of
                     (Some e, files2) \<Rightarrow> (Some (ReplaceFailed e), files2)
                   | (None, files2) \<Rightarrow> (None, files2)))"

definition cleanup :: "faults \<Rightarrow> path \<Rightarrow> fs \<Rightarrow> event list \<times> fs" where
  "cleanup flt tmp files =
     (case os_Stat flt files tmp of
        None \<Rightarrow>
          (case os_Remove flt files tmp of
             (Some removeErr, files') \<Rightarrow> ([Log (MsgRemoveFailed tmp removeErr)], files')
           | (None, files') \<Rightarrow> ([], files'))
      | Some e \<Rightarrow> ([], files))"

definition stripMetadata ::
  "faults \<Rightarrow> ffmpeg_tool \<Rightarrow> path \<Rightarrow> fs \<Rightarrow> strip_error option \<times> event list \<times> fs" where
  "stripMetadata flt tool inputFile files =
     (let tmp = tmpFile inputFile;
          (res, files1) = stripMetadata_body flt tool inputFile tmp files;
          (logged, files2) = cleanup flt tmp files1
      in (res, Exec (FfmpegStrip inputFile tmp) # logged, files2))"

text \<open>A fault of the system at one path.\<close>

definition deny :: "path \<Rightarrow> string \<Rightarrow> path \<Rightarrow> string option" where
  "deny p e q = (if q = p then Some e else None)"

section \<open>The dependency check\<close>

text \<open>
  The program that inspects metadata installs the tool when it is missing. What the
  commands it runs answer is the input: the error of each \<^verbatim>\<open>Run\<close>, and whether the
  install context reports \<^verbatim>\<open>DeadlineExceeded\<close> when the install has failed. The install
  runs under a context with its own timeout, in minutes.
\<close>

record install_env =
  ffmpeg_probe :: "string option"
  brew_probe :: "string option"
  brew_install :: "string option"
  install_deadline_exceeded :: bool
  ffmpeg_reprobe :: "string option"

definition installTimeout :: nat where
  "installTimeout = 20"

definition checkFFmpeg :: "install_env \<Rightarrow> check_error option \<times> event list" where
  "checkFFmpeg env =
     (let ev1 = [Exec FfmpegVersion]
      in case ffmpeg_probe env of
           None \<Rightarrow> (None, ev1)
         | Some e1 \<Rightarrow>
             (let ev2 = ev1 @ [Log MsgTryInstall, Exec BrewVersion]
              in case brew_probe env of
                   Some e2 \<Rightarrow> (Some NoHomebrew, ev2)
                 | None \<Rightarrow>
                     (let ev3 = ev2 @ [Log MsgBrewFound, Log MsgMayTakeMinutes,
                                       ExecWithin installTimeout BrewInstallFfmpeg]
                      in case brew_install env of
                           Some e3 \<Rightarrow>
                             if install_deadline_exceeded env then (Some InstallTimedOut, ev3)
                             else (Some (InstallFailed e3), ev3)
                         | None \<Rightarrow>
                             (let ev4 = ev3 @ [Log MsgInstalled, Exec FfmpegVersion]
                              in case ffmpeg_reprobe env of
                                   Some e4 \<Rightarrow> (Some NotOnPath, ev4)
                                 | None \<Rightarrow> (None, ev4)))))"

text \<open>
  The program without metadata inspection (\<^verbatim>\<open>cmd/strip-metadata/main.go\<close>) only probes.
  Its argument is the error of \<^verbatim>\<open>ffmpeg -version\<close>.
\<close>

definition checkFFmpeg_simple :: "string option \<Rightarrow> check_error option \<times> event list" where
  "checkFFmpeg_simple probe =
     (case probe of
        Some e \<Rightarrow> (Some FfmpegNotFound, [Exec FfmpegVersion])
      | None \<Rightarrow> (None, [Exec FfmpegVersion]))"

section \<open>The program without metadata inspection\<close>

text \<open>
  \<^verbatim>\<open>main\<close> of \<^verbatim>\<open>cmd/strip-metadata/main.go\<close>. The world it runs in: the answer of
  \<^verbatim>\<open>os.Getwd\<close>, the error of the version probe, the directory tree the walk finds, the
  faults of the system, the transcoding tool and the file store. \<^verbatim>\<open>log.Fatalf\<close> ends the
  process at once. \<open>process\<close> is the loop over the files found, with the count of files
  and the index of the next one.
\<close>

record world =
  getwd :: "string + path"
  ffmpeg_version :: "string option"
  tree :: node
  os_faults :: faults
  ffmpeg :: ffmpeg_tool
  store :: fs

datatype fatal = FatalGetwd string | FatalFFmpeg check_error | FatalFind string

datatype exit = Fatal fatal | Returned

fun process :: "faults \<Rightarrow> ffmpeg_tool \<Rightarrow> nat \<Rightarrow> nat \<Rightarrow> path list \<Rightarrow> fs \<Rightarrow> event list \<times> fs" where
  "process flt tool n i [] files = ([], files)"
| "process flt tool n i (file # rest) files =
     (case stripMetadata flt tool file files of
        (res, evs, files') \<Rightarrow>
          (let after = (case res of
                          Some err \<Rightarrow> [Log (MsgFileError file err)]
                        | None \<Rightarrow> [Log (MsgDone (i + 1) n (Base file))]);
               (later, files'') = process flt tool n (Suc i) rest files'
           in (Log (MsgProcessing (i + 1) n (Base file)) # evs @ after @ later, files'')))"

definition main_simple :: "world \<Rightarrow> exit \<times> event list \<times> fs" where
  "main_simple w =
     (case getwd w of
        Inl e \<Rightarrow> (Fatal (FatalGetwd e), [], store w)
      | Inr workDir \<Rightarrow>
          (case checkFFmpeg_simple (ffmpeg_version w) of
             (Some err, evs) \<Rightarrow> (Fatal (FatalFFmpeg err), evs, store w)
           | (None, evs) \<Rightarrow>
               (case findVideoFiles workDir (tree w) of
                  (videoFiles, Some e) \<Rightarrow>
                    (Fatal (FatalFind e), evs @ [Log (MsgScanning workDir)], store w)
                | (videoFiles, None) \<Rightarrow>
                    if length videoFiles = 0
                    then (Returned, evs @ [Log (MsgScanning workDir), Log MsgNoVideos], store w)
                    else (case process (os_faults w) (ffmpeg w) (length videoFiles) 0 videoFiles
                                 (store w) of
                            (evs2, files') \<Rightarrow>
                              (Returned,
                               evs @ [Log (MsgScanning workDir),
                                      Log (MsgFoundCount (length videoFiles))]
                                 @ evs2 @ [Log MsgFinished],
                               files')))))"

section \<open>Metadata snapshots and their classification\<close>

text \<open>
  \<^verbatim>\<open>metadataInfo\<close>: the tags of the container and the tags of each stream. A tag map is
  a list of pairs of a key and a value with no key twice; a \<^verbatim>\<open>nil\<close> map is \<open>None\<close>. Go
  leaves the order in which \<^verbatim>\<open>range\<close> visits a map open; the order of the list is the
  order of that visit. A lookup \<^verbatim>\<open>m[key]\<close> is \<open>map_of\<close>.
\<close>

type_synonym tags = "(string \<times> string) list"

record metadataInfo =
  Format_Tags :: "tags option"
  Streams :: "tags option list"

datatype probe_error = FfprobeFailed string | ParseFailed string

text \<open>
  One block of the form
  \<^verbatim>\<open>if v, ok := m[key]; ok && v != "" { found = append(found, fmt.Sprintf(label + ": %s", v)) }\<close>.
\<close>

definition report :: "tags \<Rightarrow> string \<Rightarrow> string \<Rightarrow> string list \<Rightarrow> string list" where
  "report m key label found =
     (case map_of m key of
        Some v \<Rightarrow> if v \<noteq> [] then found @ [label @ '': '' @ v] else found
      | None \<Rightarrow> found)"

text \<open>\<^verbatim>\<open>displayMetadata\<close>: the container's block, the loop over the streams, the log.\<close>

definition display_format :: "tags option \<Rightarrow> string list \<Rightarrow> string list" where
  "display_format m found =
     (case m of
        None \<Rightarrow> found
      | Some t \<Rightarrow>
          (let f1 = report t ''creation_time'' ''creation_time'' found;
               f2 = report t ''encoder'' ''encoder'' f1;
               f3 = report t ''comment'' ''comment'' f2;
               f4 = report t ''title'' ''title'' f3;
               f5 = report t ''artist'' ''artist'' f4;
               f6 = report t ''album'' ''album'' f5;
               f7 = report t ''date'' ''date'' f6;
               f8 = report t ''description'' ''description'' f7
           in f8))"

definition stream_label :: "nat \<Rightarrow> string \<Rightarrow> string" where
  "stream_label i key = ''stream['' @ itoa i @ ''].'' @ key"

definition display_stream :: "nat \<Rightarrow> tags option \<Rightarrow> string list \<Rightarrow> string list" where
  "display_stream i m found =
     (case m of
        None \<Rightarrow> found
      | Some t \<Rightarrow>
          (let f1 = report t ''creation_time'' (stream_label i ''creation_time'') found;
               f2 = report t ''encoder'' (stream_label i ''encoder'') f1;
               f3 = report t ''timecode'' (stream_label i ''timecode'') f2
           in f3))"

fun display_streams :: "nat \<Rightarrow> tags option list \<Rightarrow> string list \<Rightarrow> string list" where
  "display_streams i [] found = found"
| "display_streams i (s # ss) found = display_streams (Suc i) ss (display_stream i s found)"

definition foundMetadata :: "metadataInfo \<Rightarrow> string list" where
  "foundMetadata md = display_streams 0 (Streams md) (display_format (Format_Tags md) [])"

definition displayMetadata :: "metadataInfo option \<Rightarrow> event list" where
  "displayMetadata metadata =
     (case metadata of
        None \<Rightarrow> []
      | Some md \<Rightarrow>
          (let found = foundMetadata md
           in if length found > 0
              then [Log MsgMetadataFound] @ map (\<lambda>meta. Log (MsgItem meta)) found @ [Log MsgStripping]
              else [Log MsgNoMetadata]))"

text \<open>
  \<^verbatim>\<open>verifyMetadataRemoved\<close>: the loop over all tags of the container, the loop over the
  streams, the log. Its argument is what \<^verbatim>\<open>getMetadata\<close> returned for the file.
\<close>

definition ignoredTags :: "string \<rightharpoonup> bool" where
  "ignoredTags = [''major_brand'' \<mapsto> True, ''minor_version'' \<mapsto> True, ''compatible_brands'' \<mapsto> True]"

definition ignoredTags_lookup :: "string \<Rightarrow> bool" where
  "ignoredTags_lookup key = (case ignoredTags key of Some b \<Rightarrow> b | None \<Rightarrow> False)"

fun verify_range :: "tags \<Rightarrow> string list \<Rightarrow> string list" where
  "verify_range [] remaining = remaining"
| "verify_range ((key, value) # rest) remaining =
     (if \<not> ignoredTags_lookup key \<and> value \<noteq> []
      then (if key = ''encoder'' \<and> HasPrefix value ''Lavf''
            then verify_range rest remaining
            else verify_range rest (remaining @ [key @ '': '' @ value]))
      else verify_range rest remaining)"

definition verify_format :: "tags option \<Rightarrow> string list \<Rightarrow> string list" where
  "verify_format m remaining = (case m of None \<Rightarrow> remaining | Some t \<Rightarrow> verify_range t remaining)"

definition verify_stream :: "nat \<Rightarrow> tags option \<Rightarrow> string list \<Rightarrow> string list" where
  "verify_stream i m remaining =
     (case m of
        None \<Rightarrow> remaining
      | Some t \<Rightarrow>
          (let r1 = report t ''creation_time'' (stream_label i ''creation_time'') remaining;
               r2 = (case map_of t ''encoder'' of
                       Some encoder \<Rightarrow>
                         if encoder \<noteq> [] \<and> \<not> HasPrefix encoder ''Lav''
                         then r1 @ [stream_label i ''encoder'' @ '': '' @ encoder]
                         else r1
                     | None \<Rightarrow> r1);
               r3 = report t ''timecode'' (stream_label i ''timecode'') r2
           in r3))"

fun verify_streams :: "nat \<Rightarrow> tags option list \<Rightarrow> string list \<Rightarrow> string list" where
  "verify_streams i [] remaining = remaining"
| "verify_streams i (s # ss) remaining = verify_streams (Suc i) ss (verify_stream i s remaining)"

definition remainingMetadata :: "metadataInfo \<Rightarrow> string list" where
  "remainingMetadata md = verify_streams 0 (Streams md) (verify_format (Format_Tags md) [])"

definition verifyMetadataRemoved :: "probe_error + metadataInfo \<Rightarrow> probe_error option \<times> event list" where
  "verifyMetadataRemoved got =
     (case got of
        Inl err \<Rightarrow> (Some err, [])
      | Inr md \<Rightarrow>
          (let remaining = remainingMetadata md
           in if length remaining > 0
              then (None, [Log MsgRemaining] @ map (\<lambda>meta. Log (MsgItem meta)) remaining)
              else (None, [Log MsgRemoved])))"

text \<open>
  To describe the findings: the fixed priority list of container keys and the keys read
  from a stream; \<open>present m key\<close>, the value of a key in a tag map when the map has the
  key with a value that is not empty (a list of one value, or of none); the key a
  container finding starts with; findings whose keys follow the priority list, each key
  at most once; and a snapshot cut down to the tags under those keys.
\<close>

definition knownKeys :: "string list" where
  "knownKeys = [''creation_time'', ''encoder'', ''comment'', ''title'', ''artist'', ''album'',
                ''date'', ''description'']"

definition streamKeys :: "string list" where
  "streamKeys = [''creation_time'', ''encoder'', ''timecode'']"

definition technicalTags :: "string list" where
  "technicalTags = [''major_brand'', ''minor_version'', ''compatible_brands'']"

definition present :: "tags option \<Rightarrow> string \<Rightarrow> string list" where
  "present m key =
     (case m of
        None \<Rightarrow> []
      | Some t \<Rightarrow> (case map_of t key of None \<Rightarrow> [] | Some v \<Rightarrow> if v \<noteq> [] then [v] else []))"

definition range_of :: "tags option \<Rightarrow> tags" where
  "range_of m = (case m of None \<Rightarrow> [] | Some t \<Rightarrow> t)"

definition finding_key :: "string \<Rightarrow> string" where
  "finding_key f = takeWhile (\<lambda>c. c \<noteq> CHR '':'') f"

definition in_priority_order :: "string list \<Rightarrow> bool" where
  "in_priority_order fs = subseq (map finding_key fs) knownKeys"

definition only_keys :: "string list \<Rightarrow> tags option \<Rightarrow> tags option" where
  "only_keys ks m = map_option (filter (\<lambda>kv. fst kv \<in> set ks)) m"

definition known_only :: "metadataInfo \<Rightarrow> metadataInfo" where
  "known_only md =
     \<lparr>Format_Tags = only_keys knownKeys (Format_Tags md),
      Streams = map (only_keys streamKeys) (Streams md)\<rparr>"

text \<open>
  The tags of the container the verification keeps, and the values it keeps of a key of
  a stream.
\<close>

definition kept :: "string \<times> string \<Rightarrow> bool" where
  "kept kv = (snd kv \<noteq> [] \<and> fst kv \<notin> set technicalTags \<and>
              \<not> (fst kv = ''encoder'' \<and> prefix ''Lavf'' (snd kv)))"

definition stream_kept :: "tags option \<Rightarrow> string \<Rightarrow> string list" where
  "stream_kept m key = [v \<leftarrow> present m key. \<not> (key = ''encoder'' \<and> prefix ''Lav'' v)]"

section \<open>Worked inputs\<close>

text \<open>
  A system without faults; a run of the tool that fails after it has written part of
  its output, and one that succeeds; a store with one video.
\<close>

definition no_faults :: faults where
  "no_faults = \<lparr>stat_fault = (\<lambda>p. None), remove_fault = (\<lambda>p. None), rename_fault = (\<lambda>p. None)\<rparr>"

definition failing_tool :: ffmpeg_tool where
  "failing_tool i out files = \<lparr>run_err = Some ''exit status 1'', written = Some ''partial''\<rparr>"

definition working_tool :: ffmpeg_tool where
  "working_tool i out files = \<lparr>run_err = None, written = Some ''stripped''\<rparr>"

definition clip_store :: fs where
  "clip_store = [''clip.mp4'' \<mapsto> ''original'']"



definition stray_tree :: node where
  "stray_tree = Dir [(''clip.mp4'', NonDir Regular), (''clip.tmp.mp4'', NonDir Regular)]"

definition stray_world :: world where
  "stray_world =
     \<lparr>getwd = Inr ''/videos'', ffmpeg_version = None, tree = stray_tree,
      os_faults = no_faults, ffmpeg = working_tool, store = Map.empty\<rparr>"

text \<open>
  Snapshots: one whose title is visited before its creation time, one with tags under
  keys the display does not read, one written by another encoder, and the tags the
  transcoding tool writes itself.
\<close>

definition title_first :: metadataInfo where
  "title_first =
     \<lparr>Format_Tags = Some [(''title'', ''Holiday''), (''creation_time'', ''2024-01-01'')],
      Streams = []\<rparr>"

definition location_only :: metadataInfo where
  "location_only =
     \<lparr>Format_Tags = Some [(''location'', ''+40.7-074.0/'')],
      Streams = [Some [(''handler_name'', ''VideoHandler'')]]\<rparr>"

definition handbrake :: metadataInfo where
  "handbrake =
     \<lparr>Format_Tags = Some [(''encoder'', ''HandBrake 1.6''), (''creation_time'', ''2024-01-01'')],
      Streams = [None, Some [(''timecode'', ''01:00:00:00'')]]\<rparr>"

definition technical :: tags where
  "technical = [(''major_brand'', ''isom''), (''minor_version'', ''512''),
                (''compatible_brands'', ''isomiso2avc1mp41''), (''encoder'', ''Lavf60.3.100'')]"

text \<open>The answers of the commands of the dependency check; a missing executable.\<close>

definition install_case ::
  "string option \<Rightarrow> string option \<Rightarrow> string option \<Rightarrow> bool \<Rightarrow> string option \<Rightarrow> install_env" where
  "install_case p b i d r =
     \<lparr>ffmpeg_probe = p, brew_probe = b, brew_install = i, install_deadline_exceeded = d,
      ffmpeg_reprobe = r\<rparr>"

definition missing :: "string option" where
  "missing = Some ''executable file not found in $PATH''"

section \<open>Paths\<close>


lemma Ext_scan_nonempty:
  "Ext_scan cs passed \<noteq> [] \<Longrightarrow>
   \<exists>pre rest. cs = pre @ CHR ''.'' # rest \<and> (\<forall>c \<in> set pre. c \<noteq> CHR ''/'' \<and> c \<noteq> CHR ''.'')
     \<and> Ext_scan cs passed = CHR ''.'' # rev pre @ passed"
proof (induction cs arbitrary: passed)
  case Nil
  then show ?case by simp
next
  case (Cons c cs)
  show ?case
  proof (cases "c = CHR ''.''")
    case True
    then have "c # cs = [] @ CHR ''.'' # cs" by simp
    moreover have "Ext_scan (c # cs) passed = CHR ''.'' # rev [] @ passed" using True by simp
    ultimately show ?thesis by (metis empty_iff list.set(1))
  next
    case False
    with Cons.prems have ns: "c \<noteq> CHR ''/''" and ne: "Ext_scan cs (c # passed) \<noteq> []"
      by (auto split: if_splits)
    from Cons.IH[OF ne] obtain pre rest where
      h: "cs = pre @ CHR ''.'' # rest" "\<forall>c \<in> set pre. c \<noteq> CHR ''/'' \<and> c \<noteq> CHR ''.''"
         "Ext_scan cs (c # passed) = CHR ''.'' # rev pre @ c # passed"
      by blast
    have "c # cs = (c # pre) @ CHR ''.'' # rest" using h(1) by simp
    moreover have "\<forall>d \<in> set (c # pre). d \<noteq> CHR ''/'' \<and> d \<noteq> CHR ''.''"
      using h(2) False ns by simp
    moreover have "Ext_scan (c # cs) passed = CHR ''.'' # rev (c # pre) @ passed"
      using h(3) False ns by simp
    ultimately show ?thesis by blast
  qed
qed

lemma Ext_suffix: "suffix (Ext p) p"
proof (cases "Ext p = []")
  case True
  then show ?thesis by simp
next
  case False
  then obtain pre rest where
    h: "rev p = pre @ CHR ''.'' # rest" "Ext p = CHR ''.'' # rev pre"
    using Ext_scan_nonempty[of "rev p" "[]"] by (auto simp: Ext_def)
  from h(1) have "p = rev rest @ CHR ''.'' # rev pre"
    by (metis append.assoc append_Cons append_Nil rev.simps(2) rev_append rev_rev_ident)
  then show ?thesis using h(2) by (metis suffixI)
qed

lemma TrimSuffix_Ext: "TrimSuffix p (Ext p) @ Ext p = p"
proof -
  obtain b where b: "p = b @ Ext p" using Ext_suffix[of p] by (auto simp: suffix_def)
  have "take (length p - length (Ext p)) p = b"
    by (subst (2) b, subst (1) b) simp
  then show ?thesis using b Ext_suffix[of p] by (simp add: TrimSuffix_def)
qed

lemma length_tmpFile: "length (tmpFile p) = length p + 4"
proof -
  have "length (TrimSuffix p (Ext p) @ Ext p) = length p" by (simp only: TrimSuffix_Ext)
  then show ?thesis by (simp add: tmpFile_def Let_def)
qed

lemma tmpFile_neq: "tmpFile p \<noteq> p"
  using length_tmpFile[of p] by auto



lemma tmpFile_clip: "tmpFile ''clip.mp4'' = ''clip.tmp.mp4''"
  by (simp add: tmpFile_def Ext_def TrimSuffix_def suffix_def)

section \<open>The cleanup and the body of the strip operation\<close>

lemma cleanup_removes:
  "stat_fault flt tmp = None \<Longrightarrow> remove_fault flt tmp = None \<Longrightarrow>
   snd (cleanup flt tmp files) tmp = None"
  by (simp add: cleanup_def os_Stat_def os_Remove_def split: option.splits)

lemma cleanup_absent:
  "files tmp = None \<Longrightarrow> snd (cleanup flt tmp files) = files"
  by (simp add: cleanup_def os_Stat_def split: option.splits)

lemma cleanup_other:
  "p \<noteq> tmp \<Longrightarrow> snd (cleanup flt tmp files) p = files p"
  by (simp add: cleanup_def os_Stat_def os_Remove_def split: option.splits)

lemma stripMetadata_unfold:
  "stripMetadata flt tool inputFile files =
     (fst (stripMetadata_body flt tool inputFile (tmpFile inputFile) files),
      Exec (FfmpegStrip inputFile (tmpFile inputFile)) #
        fst (cleanup flt (tmpFile inputFile)
               (snd (stripMetadata_body flt tool inputFile (tmpFile inputFile) files))),
      snd (cleanup flt (tmpFile inputFile)
             (snd (stripMetadata_body flt tool inputFile (tmpFile inputFile) files))))"
  by (simp add: stripMetadata_def Let_def split: prod.splits)

lemma body_ffmpeg_failure:
  "run_err (tool inputFile tmp files) = Some e \<Longrightarrow>
   stripMetadata_body flt tool inputFile tmp files =
     (Some (FfmpegFailed e), ffmpeg_effect (tool inputFile tmp files) tmp files)"
  by (simp add: stripMetadata_body_def Let_def)

lemma ffmpeg_effect_other: "p \<noteq> tmp \<Longrightarrow> ffmpeg_effect out tmp files p = files p"
  by (simp add: ffmpeg_effect_def split: option.splits)

lemma body_success:
  "stripMetadata_body flt tool inputFile tmp files = (None, files1) \<Longrightarrow> inputFile \<noteq> tmp \<Longrightarrow>
   files1 tmp = None \<and>
   files1 inputFile = ffmpeg_effect (tool inputFile tmp files) tmp files tmp \<and>
   files1 inputFile \<noteq> None"
  by (auto simp: stripMetadata_body_def Let_def os_Rename_def
           split: option.splits if_splits prod.splits)

section \<open>The findings in closed form\<close>

lemma report_eq: "report t key label found = found @ map (\<lambda>v. label @ '': '' @ v) (present (Some t) key)"
  by (simp add: report_def present_def split: option.splits)

lemma display_format_eq:
  "display_format m found = found @ [k @ '': '' @ v. k \<leftarrow> knownKeys, v \<leftarrow> present m k]"
  by (cases m) (simp_all add: display_format_def report_eq knownKeys_def present_def)

lemma display_stream_eq:
  "display_stream i m found = found @ [stream_label i k @ '': '' @ v. k \<leftarrow> streamKeys, v \<leftarrow> present m k]"
  by (cases m) (simp_all add: display_stream_def report_eq streamKeys_def present_def)

lemma display_streams_eq:
  "display_streams i ss found =
     found @ concat (map (\<lambda>(j, s). [stream_label j k @ '': '' @ v. k \<leftarrow> streamKeys, v \<leftarrow> present s k])
                      (enumerate i ss))"
  by (induction ss arbitrary: i found) (simp_all add: display_stream_eq)

lemma foundMetadata_eq:
  "foundMetadata md =
     [k @ '': '' @ v. k \<leftarrow> knownKeys, v \<leftarrow> present (Format_Tags md) k] @
     concat (map (\<lambda>(j, s). [stream_label j k @ '': '' @ v. k \<leftarrow> streamKeys, v \<leftarrow> present s k])
               (enumerate 0 (Streams md)))"
  unfolding foundMetadata_def display_streams_eq display_format_eq by simp

lemma ignoredTags_lookup_iff: "ignoredTags_lookup k \<longleftrightarrow> k \<in> set technicalTags"
  by (simp add: ignoredTags_lookup_def ignoredTags_def technicalTags_def)

lemma verify_range_eq:
  "verify_range t remaining = remaining @ map (\<lambda>kv. fst kv @ '': '' @ snd kv) (filter kept t)"
  by (induction t remaining rule: verify_range.induct)
     (auto simp: ignoredTags_lookup_iff HasPrefix_def kept_def)

lemma verify_format_eq:
  "verify_format m remaining = remaining @ map (\<lambda>kv. fst kv @ '': '' @ snd kv) (filter kept (range_of m))"
  by (cases m) (simp_all add: verify_format_def range_of_def verify_range_eq)

lemma verify_stream_eq:
  "verify_stream i m remaining =
     remaining @ [stream_label i k @ '': '' @ v. k \<leftarrow> streamKeys, v \<leftarrow> stream_kept m k]"
  by (cases m)
     (auto simp: verify_stream_def report_eq streamKeys_def present_def stream_kept_def
        HasPrefix_def split: option.splits)

lemma verify_streams_eq:
  "verify_streams i ss remaining =
     remaining @ concat (map (\<lambda>(j, s). [stream_label j k @ '': '' @ v. k \<leftarrow> streamKeys, v \<leftarrow> stream_kept s k])
                          (enumerate i ss))"
  by (induction ss arbitrary: i remaining) (simp_all add: verify_stream_eq)

lemma remainingMetadata_eq:
  "remainingMetadata md =
     map (\<lambda>kv. fst kv @ '': '' @ snd kv) (filter kept (range_of (Format_Tags md))) @
     concat (map (\<lambda>(j, s). [stream_label j k @ '': '' @ v. k \<leftarrow> streamKeys, v \<leftarrow> stream_kept s k])
               (enumerate 0 (Streams md)))"
  unfolding remainingMetadata_def verify_streams_eq verify_format_eq by simp

lemma distinct_map_of_iff: "distinct (map fst t) \<Longrightarrow> (k, v) \<in> set t \<longleftrightarrow> map_of t k = Some v"
  by (metis map_of_SomeD map_of_is_SomeI)

lemma container_set:
  assumes "distinct (map fst t)"
  shows "set (verify_format (Some t) []) =
     {k @ '': '' @ v |k v. map_of t k = Some v \<and> v \<noteq> [] \<and> k \<notin> set technicalTags \<and>
        \<not> (k = ''encoder'' \<and> prefix ''Lavf'' v)}"
proof -
  have "set (verify_format (Some t) []) = (\<lambda>kv. fst kv @ '': '' @ snd kv) ` {kv \<in> set t. kept kv}"
    by (auto simp: verify_format_eq range_of_def)
  also have "\<dots> = {k @ '': '' @ v |k v. (k, v) \<in> set t \<and> kept (k, v)}"
    by force
  also have "\<dots> = {k @ '': '' @ v |k v. map_of t k = Some v \<and> v \<noteq> [] \<and> k \<notin> set technicalTags \<and>
        \<not> (k = ''encoder'' \<and> prefix ''Lavf'' v)}"
    using distinct_map_of_iff[OF assms] by (auto simp: kept_def)
  finally show ?thesis .
qed

lemma technical_only:
  assumes "set t \<subseteq> {(''major_brand'', a), (''minor_version'', b), (''compatible_brands'', c),
                      (''encoder'', ''Lavf60.3.100'')}"
  shows "remainingMetadata \<lparr>Format_Tags = Some t, Streams = []\<rparr> = []"
proof -
  have "\<not> kept kv" if "kv \<in> set t" for kv
    using that assms by (auto simp: kept_def technicalTags_def)
  then have "filter kept t = []" by (simp add: filter_empty_conv)
  then show ?thesis
    by (simp add: remainingMetadata_eq range_of_def)
qed

lemma finding_key_known: "k \<in> set knownKeys \<Longrightarrow> finding_key (k @ '': '' @ v) = k"
  by (auto simp: knownKeys_def finding_key_def)

lemma present_cases: "present m k = [] \<or> (\<exists>v. present m k = [v] \<and> v \<noteq> [])"
  by (simp add: present_def split: option.splits)

lemma keys_of_findings:
  "set ks \<subseteq> set knownKeys \<Longrightarrow>
   map finding_key [k @ '': '' @ v. k \<leftarrow> ks, v \<leftarrow> present m k] = filter (\<lambda>k. present m k \<noteq> []) ks"
proof (induction ks)
  case Nil
  then show ?case by simp
next
  case (Cons k ks)
  then have k: "k \<in> set knownKeys" and ks: "set ks \<subseteq> set knownKeys" by simp_all
  show ?case using present_cases[of m k] Cons.IH[OF ks] finding_key_known[OF k] by auto
qed

lemma display_format_order: "in_priority_order (display_format m [])"
  unfolding in_priority_order_def display_format_eq
  using keys_of_findings[of knownKeys m] by simp

lemma streams_concat:
  "display_streams i ss [] = concat (map (\<lambda>(j, s). display_stream j s []) (enumerate i ss))"
  "verify_streams i ss [] = concat (map (\<lambda>(j, s). verify_stream j s []) (enumerate i ss))"
  by (simp_all add: display_streams_eq verify_streams_eq display_stream_eq verify_stream_eq)

lemma display_streams_append: "display_streams i ss found = found @ display_streams i ss []"
  by (simp add: display_streams_eq)

lemma verify_streams_append: "verify_streams i ss remaining = remaining @ verify_streams i ss []"
  by (simp add: verify_streams_eq)

lemma map_of_only: "map_of (filter (\<lambda>kv. fst kv \<in> S) t) k = (if k \<in> S then map_of t k else None)"
  by (induction t) auto

lemma present_only: "k \<in> set ks \<Longrightarrow> present (only_keys ks m) k = present m k"
  by (cases m) (simp_all add: present_def only_keys_def map_of_only)

lemma display_format_only: "display_format (only_keys knownKeys m) found = display_format m found"
  unfolding display_format_eq by (simp add: present_only knownKeys_def)

lemma display_stream_only: "display_stream i (only_keys streamKeys m) found = display_stream i m found"
  unfolding display_stream_eq by (simp add: present_only streamKeys_def)

lemma display_streams_only:
  "display_streams i (map (only_keys streamKeys) ss) found = display_streams i ss found"
  by (induction ss arbitrary: i found) (simp_all add: display_stream_only)

lemma foundMetadata_known_only: "foundMetadata (known_only md) = foundMetadata md"
  by (simp add: foundMetadata_def known_only_def display_streams_only display_format_only)

lemma container_reported:
  assumes "k \<in> set knownKeys" "Format_Tags md = Some t" "map_of t k = Some v" "v \<noteq> []"
  shows "k @ '': '' @ v \<in> set (foundMetadata md)"
proof -
  have "v \<in> set (present (Format_Tags md) k)" using assms by (simp add: present_def)
  then show ?thesis using assms(1) unfolding foundMetadata_eq by auto
qed

lemma stream_reported:
  assumes "j < length (Streams md)" "Streams md ! j = Some t" "k \<in> set streamKeys"
    "map_of t k = Some v" "v \<noteq> []"
  shows "stream_label j k @ '': '' @ v \<in> set (foundMetadata md)"
proof -
  have v: "v \<in> set (present (Streams md ! j) k)" using assms by (simp add: present_def)
  have "(j, Streams md ! j) \<in> set (enumerate 0 (Streams md))"
    using assms(1) by (simp add: in_set_enumerate_eq)
  then show ?thesis using assms(3) v unfolding foundMetadata_eq by force
qed

section \<open>The walk\<close>










lemma main_simple_fatal:
  "getwd w = Inr dir \<Longrightarrow> ffmpeg_version w = Some e \<Longrightarrow>
   main_simple w = (Fatal (FatalFFmpeg FfmpegNotFound), [Exec FfmpegVersion], store w)"
  by (simp add: main_simple_def checkFFmpeg_simple_def)




section \<open>The strip operation when the tool or the system fails\<close>

text \<open>
  C1, as amended. For every input path: if the run of the transcoding tool inside
  \<open>stripMetadata\<close> fails, then \<open>stripMetadata\<close> returns the error that wraps the tool's,
  the original file is unchanged in content and location, and no file remains at the
  temporary path after the call returns, provided the deferred cleanup's \<^verbatim>\<open>os.Stat\<close>
  and \<^verbatim>\<open>os.Remove\<close> of that path do not fail for a reason of the system's.
\<close>

theorem stripMetadata_ffmpeg_failure:
  assumes "run_err (tool inputFile (tmpFile inputFile) files) = Some e"
    and "stripMetadata flt tool inputFile files = (res, evs, files')"
  shows "res = Some (FfmpegFailed e) \<and> files' inputFile = files inputFile \<and>
         (stat_fault flt (tmpFile inputFile) = None \<and> remove_fault flt (tmpFile inputFile) = None
            \<longrightarrow> files' (tmpFile inputFile) = None)"
proof -
  let ?tmp = "tmpFile inputFile"
  let ?f1 = "ffmpeg_effect (tool inputFile ?tmp files) ?tmp files"
  have body: "stripMetadata_body flt tool inputFile ?tmp files = (Some (FfmpegFailed e), ?f1)"
    using assms(1) by (rule body_ffmpeg_failure)
  from assms(2) have res: "res = Some (FfmpegFailed e)" and f': "files' = snd (cleanup flt ?tmp ?f1)"
    unfolding stripMetadata_unfold body by simp_all
  have ne: "inputFile \<noteq> ?tmp" using tmpFile_neq[of inputFile] by simp
  have "files' inputFile = ?f1 inputFile" unfolding f' using ne by (rule cleanup_other)
  also have "\<dots> = files inputFile" using ne by (rule ffmpeg_effect_other)
  finally have orig: "files' inputFile = files inputFile" .
  have cl: "stat_fault flt ?tmp = None \<and> remove_fault flt ?tmp = None \<longrightarrow> files' ?tmp = None"
    unfolding f' using cleanup_removes by blast
  show ?thesis using res orig cl by blast
qed

theorem stripMetadata_ffmpeg_failure_witness:
  "run_err (failing_tool ''clip.mp4'' (tmpFile ''clip.mp4'') clip_store) = Some ''exit status 1'' \<and>
   fst (stripMetadata no_faults failing_tool ''clip.mp4'' clip_store) = Some (FfmpegFailed ''exit status 1'') \<and>
   snd (snd (stripMetadata no_faults failing_tool ''clip.mp4'' clip_store)) ''clip.mp4'' = Some ''original'' \<and>
   snd (snd (stripMetadata no_faults failing_tool ''clip.mp4'' clip_store)) (tmpFile ''clip.mp4'') = None"
proof -
  have r: "run_err (failing_tool ''clip.mp4'' (tmpFile ''clip.mp4'') clip_store) = Some ''exit status 1''"
    by (simp add: failing_tool_def)
  have s: "stripMetadata no_faults failing_tool ''clip.mp4'' clip_store =
      (fst (stripMetadata no_faults failing_tool ''clip.mp4'' clip_store),
       fst (snd (stripMetadata no_faults failing_tool ''clip.mp4'' clip_store)),
       snd (snd (stripMetadata no_faults failing_tool ''clip.mp4'' clip_store)))"
    by simp
  have f: "stat_fault no_faults (tmpFile ''clip.mp4'') = None"
          "remove_fault no_faults (tmpFile ''clip.mp4'') = None"
    by (simp_all add: no_faults_def)
  show ?thesis
    using stripMetadata_ffmpeg_failure [OF r s] r f by (simp add: clip_store_def)
qed

text \<open>
  C1 as stated fails: the tool exits with an error after it has written part of its
  output, and the removal of the temporary file is refused. The function logs the
  refusal and returns; the temporary file is still there.
\<close>

theorem stripMetadata_ffmpeg_failure_counterexample:
  "run_err (failing_tool ''clip.mp4'' (tmpFile ''clip.mp4'') clip_store) = Some ''exit status 1'' \<and>
   snd (snd (stripMetadata
               (no_faults\<lparr>remove_fault := deny ''clip.tmp.mp4'' ''permission denied''\<rparr>)
               failing_tool ''clip.mp4'' clip_store)) (tmpFile ''clip.mp4'') = Some ''partial''"
  by (simp add: stripMetadata_unfold tmpFile_clip stripMetadata_body_def ffmpeg_effect_def
        cleanup_def os_Stat_def os_Remove_def deny_def no_faults_def failing_tool_def clip_store_def)

text \<open>
  C4, as amended. For every input path, at the end of every call of \<open>stripMetadata\<close>:
  when the call succeeds, no file exists at the temporary path, and the original path
  holds what the tool left at the temporary path; when the call returns an error, no
  file exists at the temporary path provided the deferred cleanup's \<^verbatim>\<open>os.Stat\<close> and
  \<^verbatim>\<open>os.Remove\<close> of that path do not fail for a reason of the system's.
\<close>

theorem stripMetadata_tmp_gone:
  assumes "stripMetadata flt tool inputFile files = (res, evs, files')"
  shows "(res = None \<longrightarrow>
            files' (tmpFile inputFile) = None \<and>
            files' inputFile =
              ffmpeg_effect (tool inputFile (tmpFile inputFile) files) (tmpFile inputFile) files
                (tmpFile inputFile) \<and>
            files' inputFile \<noteq> None) \<and>
         (stat_fault flt (tmpFile inputFile) = None \<and> remove_fault flt (tmpFile inputFile) = None
            \<longrightarrow> files' (tmpFile inputFile) = None)"
proof -
  let ?tmp = "tmpFile inputFile"
  obtain r f1 where body: "stripMetadata_body flt tool inputFile ?tmp files = (r, f1)"
    by (cases "stripMetadata_body flt tool inputFile ?tmp files")
  from assms have res: "res = r" and f': "files' = snd (cleanup flt ?tmp f1)"
    unfolding stripMetadata_unfold body by simp_all
  have ne: "inputFile \<noteq> ?tmp" using tmpFile_neq[of inputFile] by simp
  have ok: "res = None \<longrightarrow> files' ?tmp = None \<and>
      files' inputFile = ffmpeg_effect (tool inputFile ?tmp files) ?tmp files ?tmp \<and>
      files' inputFile \<noteq> None"
  proof
    assume "res = None"
    with body res have b: "stripMetadata_body flt tool inputFile ?tmp files = (None, f1)" by simp
    note s = body_success[OF b ne]
    have "files' = f1" unfolding f' using s by (simp add: cleanup_absent)
    then show "files' ?tmp = None \<and>
      files' inputFile = ffmpeg_effect (tool inputFile ?tmp files) ?tmp files ?tmp \<and>
      files' inputFile \<noteq> None" using s by metis
  qed
  have cl: "stat_fault flt ?tmp = None \<and> remove_fault flt ?tmp = None \<longrightarrow> files' ?tmp = None"
    unfolding f' using cleanup_removes by blast
  show ?thesis using ok cl by blast
qed

theorem stripMetadata_tmp_gone_witness:
  "fst (stripMetadata no_faults working_tool ''clip.mp4'' clip_store) = None \<and>
   snd (snd (stripMetadata no_faults working_tool ''clip.mp4'' clip_store)) (tmpFile ''clip.mp4'') = None \<and>
   snd (snd (stripMetadata no_faults working_tool ''clip.mp4'' clip_store)) ''clip.mp4'' = Some ''stripped''"
proof -
  have s: "stripMetadata no_faults working_tool ''clip.mp4'' clip_store =
      (fst (stripMetadata no_faults working_tool ''clip.mp4'' clip_store),
       fst (snd (stripMetadata no_faults working_tool ''clip.mp4'' clip_store)),
       snd (snd (stripMetadata no_faults working_tool ''clip.mp4'' clip_store)))"
    by simp
  have ok: "fst (stripMetadata no_faults working_tool ''clip.mp4'' clip_store) = None"
    by (simp add: stripMetadata_unfold tmpFile_clip stripMetadata_body_def ffmpeg_effect_def
          os_IsNotExist_def os_Stat_def os_Rename_def no_faults_def working_tool_def)
  have e: "ffmpeg_effect (working_tool ''clip.mp4'' (tmpFile ''clip.mp4'') clip_store)
             (tmpFile ''clip.mp4'') clip_store (tmpFile ''clip.mp4'') = Some ''stripped''"
    by (simp add: ffmpeg_effect_def working_tool_def)
  show ?thesis
    using stripMetadata_tmp_gone [OF s] ok e by simp
qed

text \<open>
  C4 as stated fails: on a volume that has become read-only after the tool wrote its
  output, the rename fails, the call returns that error, and the cleanup cannot remove
  the temporary file.
\<close>

theorem stripMetadata_tmp_gone_counterexample:
  "fst (stripMetadata
          (no_faults\<lparr>remove_fault := deny ''clip.tmp.mp4'' ''read-only file system'',
                      rename_fault := deny ''clip.tmp.mp4'' ''read-only file system''\<rparr>)
          working_tool ''clip.mp4'' clip_store) = Some (ReplaceFailed (OtherError ''read-only file system'')) \<and>
   snd (snd (stripMetadata
          (no_faults\<lparr>remove_fault := deny ''clip.tmp.mp4'' ''read-only file system'',
                      rename_fault := deny ''clip.tmp.mp4'' ''read-only file system''\<rparr>)
          working_tool ''clip.mp4'' clip_store)) (tmpFile ''clip.mp4'') = Some ''stripped''"
  by (simp add: stripMetadata_unfold tmpFile_clip stripMetadata_body_def ffmpeg_effect_def
        cleanup_def os_Stat_def os_Remove_def os_Rename_def os_IsNotExist_def deny_def
        no_faults_def working_tool_def clip_store_def)

section \<open>What discovery returns\<close>






section \<open>Classification after and before the strip\<close>

text \<open>
  C2. For every snapshot, \<open>verifyMetadataRemoved\<close> reports exactly: each tag of the
  container with a value that is not empty, whose key is none of \<^verbatim>\<open>major_brand\<close>,
  \<^verbatim>\<open>minor_version\<close>, \<^verbatim>\<open>compatible_brands\<close>, and that is not an \<^verbatim>\<open>encoder\<close> tag whose value
  begins with \<^verbatim>\<open>Lavf\<close>; then, for each stream, \<^verbatim>\<open>creation_time\<close> and \<^verbatim>\<open>timecode\<close> when present
  and not empty, and \<^verbatim>\<open>encoder\<close> when present, not empty and not beginning with \<^verbatim>\<open>Lav\<close>.
  As a set, the container's findings do not depend on the order in which the map is
  visited. A snapshot with only the three technical tags and the encoder
  \<^verbatim>\<open>Lavf60.3.100\<close> has no finding; one with the title \<^verbatim>\<open>Vacation\<close> has the one finding
  \<^verbatim>\<open>title: Vacation\<close>.
\<close>

theorem verifyMetadataRemoved_reports:
  "remainingMetadata md =
     map (\<lambda>kv. fst kv @ '': '' @ snd kv) (filter kept (range_of (Format_Tags md))) @
     concat (map (\<lambda>(j, s). [stream_label j k @ '': '' @ v. k \<leftarrow> streamKeys, v \<leftarrow> stream_kept s k])
               (enumerate 0 (Streams md))) \<and>
   verifyMetadataRemoved (Inr md) =
     (None, if remainingMetadata md = [] then [Log MsgRemoved]
            else Log MsgRemaining # map (\<lambda>meta. Log (MsgItem meta)) (remainingMetadata md)) \<and>
   (distinct (map fst t) \<longrightarrow>
      set (remainingMetadata \<lparr>Format_Tags = Some t, Streams = []\<rparr>) =
        {k @ '': '' @ v |k v. map_of t k = Some v \<and> v \<noteq> [] \<and>
           k \<notin> {''major_brand'', ''minor_version'', ''compatible_brands''} \<and>
           \<not> (k = ''encoder'' \<and> prefix ''Lavf'' v)}) \<and>
   (set t \<subseteq> {(''major_brand'', a), (''minor_version'', b), (''compatible_brands'', c),
               (''encoder'', ''Lavf60.3.100'')} \<longrightarrow>
      remainingMetadata \<lparr>Format_Tags = Some t, Streams = []\<rparr> = []) \<and>
   remainingMetadata \<lparr>Format_Tags = Some [(''title'', ''Vacation'')], Streams = []\<rparr> =
     [''title: Vacation'']"
proof -
  have v: "verifyMetadataRemoved (Inr md) =
     (None, if remainingMetadata md = [] then [Log MsgRemoved]
            else Log MsgRemaining # map (\<lambda>meta. Log (MsgItem meta)) (remainingMetadata md))"
    by (simp add: verifyMetadataRemoved_def Let_def)
  have s: "distinct (map fst t) \<longrightarrow>
      set (remainingMetadata \<lparr>Format_Tags = Some t, Streams = []\<rparr>) =
        {k @ '': '' @ v |k v. map_of t k = Some v \<and> v \<noteq> [] \<and>
           k \<notin> {''major_brand'', ''minor_version'', ''compatible_brands''} \<and>
           \<not> (k = ''encoder'' \<and> prefix ''Lavf'' v)}"
  proof
    assume d: "distinct (map fst t)"
    have "remainingMetadata \<lparr>Format_Tags = Some t, Streams = []\<rparr> = verify_format (Some t) []"
      by (simp add: remainingMetadata_def)
    then show "set (remainingMetadata \<lparr>Format_Tags = Some t, Streams = []\<rparr>) =
        {k @ '': '' @ v |k v. map_of t k = Some v \<and> v \<noteq> [] \<and>
           k \<notin> {''major_brand'', ''minor_version'', ''compatible_brands''} \<and>
           \<not> (k = ''encoder'' \<and> prefix ''Lavf'' v)}"
      using container_set[OF d] by (simp add: technicalTags_def)
  qed
  have e: "remainingMetadata \<lparr>Format_Tags = Some [(''title'', ''Vacation'')], Streams = []\<rparr> =
     [''title: Vacation'']"
    by (simp add: remainingMetadata_eq range_of_def kept_def technicalTags_def)
  show ?thesis
    using remainingMetadata_eq[of md] v s technical_only[of t a b c] e by blast
qed

theorem verifyMetadataRemoved_reports_witness:
  "distinct (map fst technical) \<and>
   set technical \<subseteq> {(''major_brand'', ''isom''), (''minor_version'', ''512''),
                     (''compatible_brands'', ''isomiso2avc1mp41''), (''encoder'', ''Lavf60.3.100'')} \<and>
   remainingMetadata \<lparr>Format_Tags = Some technical, Streams = []\<rparr> = [] \<and>
   verifyMetadataRemoved (Inr \<lparr>Format_Tags = Some technical, Streams = []\<rparr>) = (None, [Log MsgRemoved])"
proof -
  have d: "distinct (map fst technical)" by (simp add: technical_def)
  have s: "set technical \<subseteq> {(''major_brand'', ''isom''), (''minor_version'', ''512''),
                     (''compatible_brands'', ''isomiso2avc1mp41''), (''encoder'', ''Lavf60.3.100'')}"
    by (simp add: technical_def)
  note th = verifyMetadataRemoved_reports
      [of "\<lparr>Format_Tags = Some technical, Streams = []\<rparr>" technical
          "''isom''" "''512''" "''isomiso2avc1mp41''"]
  from th s have r: "remainingMetadata \<lparr>Format_Tags = Some technical, Streams = []\<rparr> = []"
    by blast
  from th have "verifyMetadataRemoved (Inr \<lparr>Format_Tags = Some technical, Streams = []\<rparr>) =
     (None, if remainingMetadata \<lparr>Format_Tags = Some technical, Streams = []\<rparr> = []
            then [Log MsgRemoved]
            else Log MsgRemaining # map (\<lambda>meta. Log (MsgItem meta))
                   (remainingMetadata \<lparr>Format_Tags = Some technical, Streams = []\<rparr>))"
    by blast
  then have v: "verifyMetadataRemoved (Inr \<lparr>Format_Tags = Some technical, Streams = []\<rparr>) =
     (None, [Log MsgRemoved])"
    by (simp add: r)
  show ?thesis using d s r v by blast
qed

text \<open>
  C3. For every snapshot, \<open>displayMetadata\<close> reports exactly the tags of the container
  that are not empty among the eight known keys, in the fixed priority order, and then,
  stream by stream in the order of the streams, \<^verbatim>\<open>creation_time\<close>, \<^verbatim>\<open>encoder\<close> and
  \<^verbatim>\<open>timecode\<close> when present and not empty. A snapshot with the container tags
  \<^verbatim>\<open>creation_time\<close> and \<^verbatim>\<open>encoder\<close> has a finding for both, \<^verbatim>\<open>creation_time\<close> first, however
  the map is visited.
\<close>

theorem displayMetadata_reports:
  "foundMetadata md =
     [k @ '': '' @ v. k \<leftarrow> [''creation_time'', ''encoder'', ''comment'', ''title'', ''artist'',
                               ''album'', ''date'', ''description''],
                        v \<leftarrow> present (Format_Tags md) k] @
     concat (map (\<lambda>(j, s). [stream_label j k @ '': '' @ v.
                               k \<leftarrow> [''creation_time'', ''encoder'', ''timecode''], v \<leftarrow> present s k])
               (enumerate 0 (Streams md))) \<and>
   displayMetadata (Some md) =
     (if foundMetadata md = [] then [Log MsgNoMetadata]
      else Log MsgMetadataFound # map (\<lambda>meta. Log (MsgItem meta)) (foundMetadata md) @ [Log MsgStripping]) \<and>
   foundMetadata \<lparr>Format_Tags = Some [(''creation_time'', ''2024-01-01''), (''encoder'', ''HandBrake 1.6'')],
                  Streams = []\<rparr> = [''creation_time: 2024-01-01'', ''encoder: HandBrake 1.6''] \<and>
   foundMetadata \<lparr>Format_Tags = Some [(''encoder'', ''HandBrake 1.6''), (''creation_time'', ''2024-01-01'')],
                  Streams = []\<rparr> = [''creation_time: 2024-01-01'', ''encoder: HandBrake 1.6'']"
proof -
  have a: "foundMetadata md =
     [k @ '': '' @ v. k \<leftarrow> [''creation_time'', ''encoder'', ''comment'', ''title'', ''artist'',
                               ''album'', ''date'', ''description''],
                        v \<leftarrow> present (Format_Tags md) k] @
     concat (map (\<lambda>(j, s). [stream_label j k @ '': '' @ v.
                               k \<leftarrow> [''creation_time'', ''encoder'', ''timecode''], v \<leftarrow> present s k])
               (enumerate 0 (Streams md)))"
    using foundMetadata_eq[of md] unfolding knownKeys_def streamKeys_def .
  have b: "displayMetadata (Some md) =
     (if foundMetadata md = [] then [Log MsgNoMetadata]
      else Log MsgMetadataFound # map (\<lambda>meta. Log (MsgItem meta)) (foundMetadata md) @ [Log MsgStripping])"
    by (simp add: displayMetadata_def Let_def)
  have c: "foundMetadata \<lparr>Format_Tags = Some [(''creation_time'', ''2024-01-01''), (''encoder'', ''HandBrake 1.6'')],
                  Streams = []\<rparr> = [''creation_time: 2024-01-01'', ''encoder: HandBrake 1.6'']"
    by (simp add: foundMetadata_eq knownKeys_def present_def)
  have d: "foundMetadata \<lparr>Format_Tags = Some [(''encoder'', ''HandBrake 1.6''), (''creation_time'', ''2024-01-01'')],
                  Streams = []\<rparr> = [''creation_time: 2024-01-01'', ''encoder: HandBrake 1.6'']"
    by (simp add: foundMetadata_eq knownKeys_def present_def)
  show ?thesis using a b c d by blast
qed

text \<open>
  C6, as amended. For every snapshot, \<open>displayMetadata\<close> reports every tag that is not
  empty and whose key is one of the eight known keys of the container, or one of
  \<^verbatim>\<open>creation_time\<close>, \<^verbatim>\<open>encoder\<close>, \<^verbatim>\<open>timecode\<close> of a stream; tags under other keys are not
  reported: the findings are those of the snapshot cut down to these keys.
\<close>

theorem displayMetadata_known_keys:
  "(k \<in> set knownKeys \<and> Format_Tags md = Some t \<and> map_of t k = Some v \<and> v \<noteq> [] \<longrightarrow>
      k @ '': '' @ v \<in> set (foundMetadata md)) \<and>
   (j < length (Streams md) \<and> Streams md ! j = Some t \<and> k \<in> set streamKeys \<and>
    map_of t k = Some v \<and> v \<noteq> [] \<longrightarrow>
      stream_label j k @ '': '' @ v \<in> set (foundMetadata md)) \<and>
   foundMetadata (known_only md) = foundMetadata md"
  using container_reported[of k md t v] stream_reported[of j md t k v] foundMetadata_known_only[of md]
  by blast

theorem displayMetadata_known_keys_witness:
  "''encoder'' \<in> set knownKeys \<and>
   ''encoder: HandBrake 1.6'' \<in> set (foundMetadata handbrake) \<and>
   ''timecode'' \<in> set streamKeys \<and>
   stream_label 1 ''timecode'' @ '': 01:00:00:00'' \<in> set (foundMetadata handbrake)"
proof -
  have k: "''encoder'' \<in> set knownKeys" "''timecode'' \<in> set streamKeys"
    by (simp_all add: knownKeys_def streamKeys_def)
  have f: "Format_Tags handbrake = Some [(''encoder'', ''HandBrake 1.6''), (''creation_time'', ''2024-01-01'')]"
    "Streams handbrake = [None, Some [(''timecode'', ''01:00:00:00'')]]"
    by (simp_all add: handbrake_def)
  show ?thesis
    using displayMetadata_known_keys
            [of "''encoder''" handbrake "[(''encoder'', ''HandBrake 1.6''), (''creation_time'', ''2024-01-01'')]"
                "''HandBrake 1.6''" 0]
          displayMetadata_known_keys
            [of "''timecode''" handbrake "[(''timecode'', ''01:00:00:00'')]" "''01:00:00:00''" 1]
          k f
    by simp
qed

text \<open>
  C6 as stated fails: a snapshot with a \<^verbatim>\<open>location\<close> tag on the container and a
  \<^verbatim>\<open>handler_name\<close> tag on a stream, both not empty, has no finding before the strip.
\<close>

theorem displayMetadata_all_tags_counterexample:
  "map_of [(''location'', ''+40.7-074.0/'')] ''location'' = Some ''+40.7-074.0/'' \<and>
   map_of [(''handler_name'', ''VideoHandler'')] ''handler_name'' = Some ''VideoHandler'' \<and>
   foundMetadata location_only = []"
  by (simp add: location_only_def foundMetadata_eq knownKeys_def streamKeys_def present_def)

text \<open>
  C7, as amended. For every snapshot, under both policies the findings of the
  container come first and the findings of the streams follow in the order of the
  streams. Before the strip the findings of the container follow the fixed priority
  list. After the strip they follow the order in which \<^verbatim>\<open>range\<close> visits the map of tags,
  which Go leaves open.
\<close>

theorem findings_order:
  "foundMetadata md = display_format (Format_Tags md) [] @ display_streams 0 (Streams md) [] \<and>
   in_priority_order (display_format (Format_Tags md) []) \<and>
   display_streams 0 (Streams md) [] =
     concat (map (\<lambda>(j, s). display_stream j s []) (enumerate 0 (Streams md))) \<and>
   remainingMetadata md = verify_format (Format_Tags md) [] @ verify_streams 0 (Streams md) [] \<and>
   verify_format (Format_Tags md) [] =
     map (\<lambda>kv. fst kv @ '': '' @ snd kv) (filter kept (range_of (Format_Tags md))) \<and>
   verify_streams 0 (Streams md) [] =
     concat (map (\<lambda>(j, s). verify_stream j s []) (enumerate 0 (Streams md)))"
proof -
  have a: "foundMetadata md = display_format (Format_Tags md) [] @ display_streams 0 (Streams md) []"
    unfolding foundMetadata_def by (rule display_streams_append)
  have b: "remainingMetadata md = verify_format (Format_Tags md) [] @ verify_streams 0 (Streams md) []"
    unfolding remainingMetadata_def by (rule verify_streams_append)
  have c: "verify_format (Format_Tags md) [] =
     map (\<lambda>kv. fst kv @ '': '' @ snd kv) (filter kept (range_of (Format_Tags md)))"
    by (simp add: verify_format_eq)
  show ?thesis
    using a b c display_format_order[of "Format_Tags md"] streams_concat[of 0 "Streams md"] by blast
qed

text \<open>
  C7 as stated fails after the strip: when the map is visited with \<^verbatim>\<open>title\<close> before
  \<^verbatim>\<open>creation_time\<close>, the finding for the title comes first, against the priority list.
\<close>

theorem findings_order_counterexample:
  "remainingMetadata title_first = [''title: Holiday'', ''creation_time: 2024-01-01''] \<and>
   \<not> in_priority_order (remainingMetadata title_first)"
  by code_simp

section \<open>The dependency check of the two programs\<close>

text \<open>
  C8. \<open>checkFFmpeg\<close> of the program that inspects metadata starts the install only when
  the first version probe has failed. When the probe of the package manager fails too,
  it returns the error whose message quotes the two commands of a manual install.
  Otherwise it runs the install under a timeout of 20 minutes; when the install fails
  it returns the timed-out error if the install context's deadline has passed, and else
  the error that wraps the install's, with the hint of a manual install. After an
  install that succeeds it probes the version again, and returns the error with the
  hint about \<^verbatim>\<open>PATH\<close> when the tool is still not found.
\<close>

theorem checkFFmpeg_installs_on_failure:
  "(ffmpeg_probe env = None \<longrightarrow> checkFFmpeg env = (None, [Exec FfmpegVersion])) \<and>
   (ExecWithin installTimeout BrewInstallFfmpeg \<in> set (snd (checkFFmpeg env)) \<longrightarrow>
      ffmpeg_probe env \<noteq> None \<and> brew_probe env = None) \<and>
   (ffmpeg_probe env \<noteq> None \<and> brew_probe env \<noteq> None \<longrightarrow>
      checkFFmpeg env = (Some NoHomebrew, [Exec FfmpegVersion, Log MsgTryInstall, Exec BrewVersion])) \<and>
   (ffmpeg_probe env \<noteq> None \<and> brew_probe env = None \<longrightarrow>
      ExecWithin 20 BrewInstallFfmpeg \<in> set (snd (checkFFmpeg env))) \<and>
   (ffmpeg_probe env \<noteq> None \<and> brew_probe env = None \<and> brew_install env = Some e \<longrightarrow>
      fst (checkFFmpeg env) =
        (if install_deadline_exceeded env then Some InstallTimedOut else Some (InstallFailed e)) \<and>
      last (snd (checkFFmpeg env)) = ExecWithin 20 BrewInstallFfmpeg) \<and>
   (ffmpeg_probe env \<noteq> None \<and> brew_probe env = None \<and> brew_install env = None \<longrightarrow>
      fst (checkFFmpeg env) = (if ffmpeg_reprobe env \<noteq> None then Some NotOnPath else None) \<and>
      last (snd (checkFFmpeg env)) = Exec FfmpegVersion) \<and>
   quoted_commands NoHomebrew =
     [''/bin/bash -c '' @ [CHR 0x22] @
        ''$(curl -fsSL https://raw.githubusercontent.com/Homebrew/install/HEAD/install.sh)'' @
        [CHR 0x22],
      ''brew install ffmpeg''] \<and>
   quoted_commands (InstallFailed e) = [''brew install ffmpeg''] \<and>
   quoted_commands NotOnPath =
     [''export PATH='' @ [CHR 0x22] @ ''/opt/homebrew/bin:$PATH'' @ [CHR 0x22]]"
  by (auto simp: checkFFmpeg_def Let_def installTimeout_def split: option.splits)

theorem checkFFmpeg_installs_on_failure_witness:
  "checkFFmpeg (install_case None None None False None) = (None, [Exec FfmpegVersion]) \<and>
   fst (checkFFmpeg (install_case missing missing None False None)) = Some NoHomebrew \<and>
   fst (checkFFmpeg (install_case missing None (Some ''signal: killed'') True None)) = Some InstallTimedOut \<and>
   fst (checkFFmpeg (install_case missing None (Some ''exit status 1'') False None)) =
     Some (InstallFailed ''exit status 1'') \<and>
   fst (checkFFmpeg (install_case missing None None False missing)) = Some NotOnPath \<and>
   fst (checkFFmpeg (install_case missing None None False None)) = None \<and>
   ExecWithin 20 BrewInstallFfmpeg \<in> set (snd (checkFFmpeg (install_case missing None None False None)))"
  using checkFFmpeg_installs_on_failure [of "install_case None None None False None"]
        checkFFmpeg_installs_on_failure [of "install_case missing missing None False None"]
        checkFFmpeg_installs_on_failure
          [of "install_case missing None (Some ''signal: killed'') True None" "''signal: killed''"]
        checkFFmpeg_installs_on_failure
          [of "install_case missing None (Some ''exit status 1'') False None" "''exit status 1''"]
        checkFFmpeg_installs_on_failure [of "install_case missing None None False missing"]
        checkFFmpeg_installs_on_failure [of "install_case missing None None False None"]
  by (simp add: install_case_def missing_def)

text \<open>
  C9. \<open>checkFFmpeg\<close> of the program without metadata inspection runs the version probe
  and nothing else. When the probe fails it returns the error that tells the user to
  run \<^verbatim>\<open>brew install ffmpeg\<close>, and \<open>main\<close> ends the run there, before any file is
  searched or touched.
\<close>

theorem checkFFmpeg_simple_never_installs:
  "snd (checkFFmpeg_simple probe) = [Exec FfmpegVersion] \<and>
   (probe \<noteq> None \<longrightarrow>
      fst (checkFFmpeg_simple probe) = Some FfmpegNotFound \<and>
      quoted_commands FfmpegNotFound = [''brew install ffmpeg''] \<and>
      (getwd w = Inr dir \<and> ffmpeg_version w = probe \<longrightarrow>
         main_simple w = (Fatal (FatalFFmpeg FfmpegNotFound), [Exec FfmpegVersion], store w)))"
  using main_simple_fatal[of w dir]
  by (auto simp: checkFFmpeg_simple_def split: option.splits)

theorem checkFFmpeg_simple_never_installs_witness:
  "missing \<noteq> None \<and>
   checkFFmpeg_simple missing = (Some FfmpegNotFound, [Exec FfmpegVersion]) \<and>
   main_simple (stray_world\<lparr>ffmpeg_version := missing\<rparr>) =
     (Fatal (FatalFFmpeg FfmpegNotFound), [Exec FfmpegVersion], Map.empty)"
proof -
  have m: "missing \<noteq> None" by (simp add: missing_def)
  have w: "getwd (stray_world\<lparr>ffmpeg_version := missing\<rparr>) = Inr ''/videos''"
    "ffmpeg_version (stray_world\<lparr>ffmpeg_version := missing\<rparr>) = missing"
    "store (stray_world\<lparr>ffmpeg_version := missing\<rparr>) = Map.empty"
    by (simp_all add: stray_world_def)
  note th = checkFFmpeg_simple_never_installs
      [of missing "stray_world\<lparr>ffmpeg_version := missing\<rparr>" "''/videos''"]
  from th m w have a: "main_simple (stray_world\<lparr>ffmpeg_version := missing\<rparr>) =
     (Fatal (FatalFFmpeg FfmpegNotFound), [Exec FfmpegVersion], Map.empty)"
    by simp
  from th m have b: "checkFFmpeg_simple missing = (Some FfmpegNotFound, [Exec FfmpegVersion])"
    by (metis prod.collapse)
  show ?thesis using m a b by blast
qed

end
